theory Spec2Isabelle
  imports Main "HOL-Library.Log_Nat"
begin

section \<open>The wallet credit-limit scorecard: \<open>set_credit_limit\<close>\<close>

text \<open>
  A shallow embedding of the function \<open>set_credit_limit\<close> of
  \<^verbatim>\<open>src/wallet_cr_limit_app.py\<close> (lines 8 to 154), the decision engine that the
  specification calls \<open>evaluate\<close>. The Streamlit front end (lines 156 to 182) only
  collects the seven arguments and prints the three results; it is not modelled.
\<close>

subsection \<open>Python values\<close>

text \<open>
  A Python float is an IEEE binary64 value: a finite one is represented by its exact
  rational value, and the three non-finite ones are constructors of their own. The
  sign of a zero is not represented (Python compares \<open>-0.0 == 0.0\<close> as true, and no
  operation of the function looks at the sign of a zero).
\<close>

datatype pyfloat = Finite rat | PosInf | NegInf | NaN

datatype pynum = PInt int | PFloat pyfloat

text \<open>A Python string is a list of Unicode code points.\<close>

type_synonym pystr = "nat list"

text \<open>
  The arguments are dynamically typed. The function distinguishes numbers (\<open>int\<close>,
  \<open>float\<close>, and \<open>bool\<close>, which is a subclass of \<open>int\<close>), strings, and everything
  else, for which \<open>NoneVal\<close> stands: an object that is neither a number nor a string
  and has no attribute \<open>lower\<close>.
\<close>

datatype pyval = Num pynum | Bool bool | Str pystr | NoneVal

datatype error =
    ValueError string
  | AttributeError
  | OverflowError
  | ZeroDivisionError

type_synonym result = "string \<times> pynum \<times> string"

subsection \<open>Strings\<close>

text \<open>
  The words that the function compares its arguments with are ASCII; \<open>ascii\<close> makes
  such a string from a literal.
\<close>

definition ascii :: "string \<Rightarrow> pystr" where
  "ascii s = map of_char s"

text \<open>
  \<open>str.lower\<close> and \<open>str.upper\<close>, code point by code point. On ASCII they are
  Python's. Outside ASCII, Python maps one code point to an ASCII string under \<open>lower\<close>
  (the Kelvin sign U+212A, to \<open>k\<close>) and ten under \<open>upper\<close> (the sharp s U+00DF to
  \<open>SS\<close>, the dotless i U+0131 to \<open>I\<close>, the long s U+017F to \<open>S\<close>, and the ligatures
  U+FB00 to U+FB06 to \<open>FF\<close>, \<open>FI\<close>, \<open>FL\<close>, \<open>FFI\<close>, \<open>FFL\<close>, \<open>ST\<close>, \<open>ST\<close>); they are
  mapped here as Python maps them. Every other code point is left as it is, where
  Python maps it to a string that holds a code point outside ASCII (U+00C0 to
  U+00E0, say): in the model as in Python the result then equals none of the ASCII
  words, and the function does nothing with a lowered or uppered string but compare it
  with ASCII words.
\<close>

definition lower_cp :: "nat \<Rightarrow> pystr" where
  "lower_cp c =
     (if 65 \<le> c \<and> c \<le> 90 then [c + 32]
      else if c = 8490 then ascii ''k''
      else [c])"

definition upper_cp :: "nat \<Rightarrow> pystr" where
  "upper_cp c =
     (if 97 \<le> c \<and> c \<le> 122 then [c - 32]
      else case map_of
             [(223, ascii ''SS''), (305, ascii ''I''), (383, ascii ''S''),
              (64256, ascii ''FF''), (64257, ascii ''FI''), (64258, ascii ''FL''),
              (64259, ascii ''FFI''), (64260, ascii ''FFL''), (64261, ascii ''ST''),
              (64262, ascii ''ST'')] c of
             Some u \<Rightarrow> u
           | None \<Rightarrow> [c])"

definition lower :: "pystr \<Rightarrow> pystr" where
  "lower s = concat (map lower_cp s)"

definition upper :: "pystr \<Rightarrow> pystr" where
  "upper s = concat (map upper_cp s)"

text \<open>A string of ASCII characters only.\<close>

definition is_ascii :: "pystr \<Rightarrow> bool" where
  "is_ascii s = list_all (\<lambda>c. c < 128) s"

subsection \<open>Numbers\<close>

text \<open>\<open>isinstance(x, (int, float))\<close>, returning the number when the test succeeds.\<close>

fun as_num :: "pyval \<Rightarrow> pynum option" where
  "as_num (Num n) = Some n"
| "as_num (Bool b) = Some (PInt (if b then 1 else 0))"
| "as_num _ = None"

text \<open>
  Comparisons. Python compares an \<open>int\<close> with a \<open>float\<close> by their exact values, so
  both are read as extended values; every comparison with a NaN is false.
\<close>

fun ext :: "pynum \<Rightarrow> pyfloat" where
  "ext (PInt n) = Finite (of_int n)"
| "ext (PFloat f) = f"

fun f_less :: "pyfloat \<Rightarrow> pyfloat \<Rightarrow> bool" where
  "f_less NaN _ = False"
| "f_less _ NaN = False"
| "f_less (Finite a) (Finite b) = (a < b)"
| "f_less _ NegInf = False"
| "f_less NegInf _ = True"
| "f_less PosInf _ = False"
| "f_less _ PosInf = True"

fun f_eq :: "pyfloat \<Rightarrow> pyfloat \<Rightarrow> bool" where
  "f_eq (Finite a) (Finite b) = (a = b)"
| "f_eq PosInf PosInf = True"
| "f_eq NegInf NegInf = True"
| "f_eq _ _ = False"

definition py_lt :: "pynum \<Rightarrow> pynum \<Rightarrow> bool" where
  "py_lt a b = f_less (ext a) (ext b)"

definition py_gt :: "pynum \<Rightarrow> pynum \<Rightarrow> bool" where
  "py_gt a b = f_less (ext b) (ext a)"

definition py_eq :: "pynum \<Rightarrow> pynum \<Rightarrow> bool" where
  "py_eq a b = f_eq (ext a) (ext b)"

definition py_le :: "pynum \<Rightarrow> pynum \<Rightarrow> bool" where
  "py_le a b = (f_less (ext a) (ext b) \<or> f_eq (ext a) (ext b))"

text \<open>\<open>min(a, b)\<close> keeps its first argument unless the second is smaller.\<close>

definition py_min :: "pynum \<Rightarrow> pynum \<Rightarrow> pynum" where
  "py_min a b = (if py_lt b a then b else a)"

subsection \<open>Binary64 arithmetic\<close>

definition pow2 :: "int \<Rightarrow> rat" where
  "pow2 e = (if 0 \<le> e then 2 ^ nat e else 1 / 2 ^ nat (- e))"

text \<open>Rounding to the nearest integer, a tie going to the even one.\<close>

definition round_half_even :: "rat \<Rightarrow> int" where
  "round_half_even x =
     (let f = \<lfloor>x\<rfloor>; d = x - of_int f
      in if d < 1 / 2 then f
         else if 1 / 2 < d then f + 1
         else if even f then f else f + 1)"

text \<open>The binary exponent of a positive rational: \<open>pow2 (ilog2 x) \<le> x < pow2 (ilog2 x + 1)\<close>.\<close>

definition ilog2 :: "rat \<Rightarrow> int" where
  "ilog2 x =
     (let (a, b) = quotient_of x; d = bitlen a - bitlen b
      in if pow2 d \<le> x then d else d - 1)"

text \<open>
  Rounding of an exact value to binary64 (53 significant bits, least exponent -1074,
  nearest, ties to even), before the check for overflow.
\<close>

definition fl :: "rat \<Rightarrow> rat" where
  "fl x =
     (if x = 0 then 0
      else let q = max (ilog2 \<bar>x\<bar> - 52) (- 1074)
           in of_int (round_half_even (x / pow2 q)) * pow2 q)"

text \<open>The result of a float operation whose exact value is \<open>x\<close>: overflow gives an infinity.\<close>

definition mk_float :: "rat \<Rightarrow> pyfloat" where
  "mk_float x =
     (let r = fl x
      in if pow2 1024 \<le> r then PosInf else if r \<le> - pow2 1024 then NegInf else Finite r)"

text \<open>\<open>float(n)\<close> for an \<open>int\<close>, as the mixed operations do it: too large an \<open>int\<close> raises.\<close>

fun py_float :: "pynum \<Rightarrow> error + pyfloat" where
  "py_float (PFloat f) = Inr f"
| "py_float (PInt n) =
     (case mk_float (of_int n) of Finite r \<Rightarrow> Inr (Finite r) | _ \<Rightarrow> Inl OverflowError)"

fun f_sgn :: "pyfloat \<Rightarrow> int" where
  "f_sgn (Finite a) = (if a = 0 then 0 else if 0 < a then 1 else - 1)"
| "f_sgn PosInf = 1"
| "f_sgn NegInf = - 1"
| "f_sgn NaN = 0"

fun f_mul :: "pyfloat \<Rightarrow> pyfloat \<Rightarrow> pyfloat" where
  "f_mul NaN _ = NaN"
| "f_mul _ NaN = NaN"
| "f_mul (Finite a) (Finite b) = mk_float (a * b)"
| "f_mul x y =
     (let s = f_sgn x * f_sgn y in if s = 0 then NaN else if 0 < s then PosInf else NegInf)"

text \<open>Division by a divisor that is not zero.\<close>

fun f_div :: "pyfloat \<Rightarrow> pyfloat \<Rightarrow> pyfloat" where
  "f_div NaN _ = NaN"
| "f_div _ NaN = NaN"
| "f_div (Finite a) (Finite b) = mk_float (a / b)"
| "f_div (Finite a) _ = Finite 0"
| "f_div x (Finite b) = (if 0 < f_sgn x * f_sgn (Finite b) then PosInf else NegInf)"
| "f_div _ _ = NaN"

text \<open>
  \<open>a * b\<close>: exact on two \<open>int\<close>s; otherwise both operands are converted to \<open>float\<close>
  and multiplied there.
\<close>

fun py_mul :: "pynum \<Rightarrow> pynum \<Rightarrow> error + pynum" where
  "py_mul (PInt a) (PInt b) = Inr (PInt (a * b))"
| "py_mul a b =
     (case py_float a of Inl e \<Rightarrow> Inl e | Inr x \<Rightarrow>
       (case py_float b of Inl e \<Rightarrow> Inl e | Inr y \<Rightarrow> Inr (PFloat (f_mul x y))))"

text \<open>
  \<open>a / b\<close>: true division always gives a \<open>float\<close>. On two \<open>int\<close>s the quotient is
  rounded once, from its exact value.
\<close>

fun py_truediv :: "pynum \<Rightarrow> pynum \<Rightarrow> error + pynum" where
  "py_truediv (PInt a) (PInt b) =
     (if b = 0 then Inl ZeroDivisionError
      else (case mk_float (of_int a / of_int b) of
              Finite r \<Rightarrow> Inr (PFloat (Finite r)) | _ \<Rightarrow> Inl OverflowError))"
| "py_truediv a b =
     (case py_float a of Inl e \<Rightarrow> Inl e | Inr x \<Rightarrow>
       (case py_float b of Inl e \<Rightarrow> Inl e | Inr y \<Rightarrow>
          if f_eq y (Finite 0) then Inl ZeroDivisionError else Inr (PFloat (f_div x y))))"

text \<open>
  \<open>round(x, 0)\<close>: an \<open>int\<close> is returned as it is; a finite \<open>float\<close> is rounded to the
  nearest integral \<open>float\<close>, ties to even; the non-finite ones round to themselves.
\<close>

fun py_round0 :: "pynum \<Rightarrow> pynum" where
  "py_round0 (PInt n) = PInt n"
| "py_round0 (PFloat (Finite a)) = PFloat (mk_float (of_int (round_half_even a)))"
| "py_round0 (PFloat f) = PFloat f"

text \<open>A float literal of the source denotes the binary64 value nearest to it.\<close>

definition lit :: "rat \<Rightarrow> pynum" where
  "lit x = PFloat (Finite (fl x))"

subsection \<open>The function \<open>set_credit_limit\<close>\<close>

text \<open>
  Lines 41 to 77: the validation checks in the order of the source, and the customer
  category. Line 62 calls \<open>crb_listing.lower()\<close> with no test of the type before it:
  on an argument that is not a string the call raises \<open>AttributeError\<close>. The
  checked arguments are kept as the source has them: the four numbers, the two CRB
  strings as given (the source lowers them at each use), and the business type in
  upper case (line 69 reassigns it).
\<close>

record checked =
  avg_ntxns_per_month :: pynum
  avg_sum_credits_per_month :: pynum
  median_avg_credits_per_month :: pynum
  businesstype :: pystr
  crb_cr_quality :: pystr
  crb_listing :: pystr
  length_on_platform :: pynum
  category :: pystr

definition validate ::
  "pyval \<Rightarrow> pyval \<Rightarrow> pyval \<Rightarrow> pyval \<Rightarrow> pyval \<Rightarrow> pyval \<Rightarrow> pyval \<Rightarrow> error + checked" where
  "validate ntxns sum_credits median btype quality listing len =
     (case as_num ntxns of
        None \<Rightarrow> Inl (ValueError ''Average number of transactions per month must be numeric.'')
      | Some n \<Rightarrow>
     (case as_num sum_credits of
        None \<Rightarrow> Inl (ValueError ''Average sum of credits per month must be numeric.'')
      | Some s \<Rightarrow>
     (case as_num median of
        None \<Rightarrow> Inl (ValueError ''Median of the average credits per month must be numeric.'')
      | Some m \<Rightarrow>
     (case as_num len of
        None \<Rightarrow> Inl (ValueError ''Length on platform must be numeric.'')
      | Some l \<Rightarrow>
     (case quality of
        Str q \<Rightarrow>
          if lower q \<notin> set [ascii ''defaulter'', ascii ''lowest'', ascii ''low'', ascii ''moderate'', ascii ''high'', ascii ''highest'']
          then Inl (ValueError
            ''CRB credit quality value must be either 'Defaulter', 'Lowest', 'Low', 'Moderate', 'High' or 'Highest'.'')
          else
           (case listing of
              Str x \<Rightarrow>
                if lower x \<notin> set [ascii ''neg'', ascii ''pos'']
                then Inl (ValueError ''CRB listing can only take the values 'Neg' or 'Pos'.'')
                else
                 (case btype of
                    Str b \<Rightarrow>
                      let b = upper b in
                      if b \<notin> set [ascii ''INDIVIDUAL'', ascii ''SOLE_PROPRIETOR'', ascii ''UNREGISTERED'',
                                     ascii ''LIMITED_COMPANY'', ascii ''PARTNERSHIP'']
                      then Inl (ValueError
                        ''Business type value must be either 'INDIVIDUAL', 'SOLE_PROPRIETOR', 'UNREGISTERED', 'LIMITED_COMPANY', or 'PARTNERSHIP'.'')
                      else Inr \<lparr>avg_ntxns_per_month = n, avg_sum_credits_per_month = s,
                                median_avg_credits_per_month = m, businesstype = b,
                                crb_cr_quality = q, crb_listing = x,
                                length_on_platform = l,
                                category =
                                  (if b \<in> set [ascii ''INDIVIDUAL'', ascii ''SOLE_PROPRIETOR'', ascii ''UNREGISTERED'']
                                   then ascii ''IND'' else ascii ''BUS'')\<rparr>
                  | _ \<Rightarrow> Inl (ValueError ''Business type value must be a string.''))
            | _ \<Rightarrow> Inl AttributeError)
      | _ \<Rightarrow> Inl (ValueError ''CRB credit quality value must be a string.''))))))"

text \<open>
  Lines 79 to 93: the four gates. Each one that matches returns at once.
\<close>

definition gates :: "checked \<Rightarrow> result option" where
  "gates c =
     (if lower (crb_listing c) = ascii ''neg''
      then Some (''Decline'', PInt 0, ''Customer has a negative CRB listing status.'')
      else if py_le (avg_ntxns_per_month c) (PInt 1)
      then Some (''Decline'', PInt 0, ''Customer has < 2 average transactions per month.'')
      else if py_lt (avg_sum_credits_per_month c) (PInt 1000)
      then Some (''Decline'', PInt 0, ''Customer has an average sum of credit amount per month < 1k.'')
      else if lower (crb_cr_quality c) = ascii ''defaulter''
      then Some (''Decline'', PInt 0, ''Customer categorized as a defaulter in CRB credit quality.'')
      else None)"

text \<open>
  Lines 95 to 146: the limit algorithm. The three local variables are a record; a
  branch either returns a result at once (\<open>Return\<close>), raises (\<open>Raise\<close>), or falls
  through to line 148 with the variables as it has set them (\<open>Continue\<close>).
\<close>

record locals =
  decision :: string
  credit_limit :: pynum
  reason :: string

datatype outcome = Raise error | Return result | Continue locals

text \<open>An assignment \<open>credit_limit = min(factor * median_avg_credits_per_month, cap)\<close>.\<close>

definition assign_min :: "locals \<Rightarrow> rat \<Rightarrow> pynum \<Rightarrow> int \<Rightarrow> outcome" where
  "assign_min v factor median cap =
     (case py_mul (lit factor) median of
        Inl e \<Rightarrow> Raise e
      | Inr p \<Rightarrow> Continue (v\<lparr>credit_limit := py_min p (PInt cap)\<rparr>))"

definition limit_algorithm :: "checked \<Rightarrow> outcome" where
  "limit_algorithm c =
     (let v = \<lparr>decision = ''Decline'', credit_limit = PInt 0,
                reason = ''Eligibility criteria met. Limit based on transaction activity.''\<rparr>;
          len = length_on_platform c;
          med = median_avg_credits_per_month c;
          s = avg_sum_credits_per_month c;
          q = lower (crb_cr_quality c)
      in
      if lower (category c) = ascii ''ind'' then
        if q \<in> set [ascii ''lowest'', ascii ''low''] then
          if py_le len (PInt 2) then
            Return (''Decline'', PInt 0,
              ''Customer is <= 2 months old on the platform with low credit quality.'')
          else if py_le (PInt 3) len \<and> py_le len (PInt 5) then assign_min v (2 / 10) med 10000
          else assign_min v (3 / 10) med 15000
        else
          if q \<in> set [ascii ''moderate'', ascii ''high'', ascii ''highest''] then
            if py_le len (PInt 1) then
              Return (''Decline'', PInt 0, ''Customer is <= 1 month old on the platform.'')
            else if py_le (PInt 2) len \<and> py_le len (PInt 5) then assign_min v (3 / 10) med 20000
            else
              if py_lt s (PInt 1000) then
                Continue (v\<lparr>credit_limit := PInt 0,
                  reason := ''Customer's average sum of credit value per month does not qualify a limit.''\<rparr>)
              else if py_le (PInt 1000) s \<and> py_le s (PInt 100000) then
                assign_min v (4 / 10) med 25000
              else assign_min v (5 / 10) med 30000
          else Continue v
      else
        if q \<in> set [ascii ''lowest'', ascii ''low''] then
          if py_le len (PInt 2) then
            Return (''Decline'', PInt 0,
              ''Customer is <= 2 months old on the platform with low credit quality.'')
          else if py_le (PInt 3) len \<and> py_le len (PInt 5) then assign_min v (45 / 100) med 50000
          else assign_min v (55 / 100) med 100000
        else
          if q \<in> set [ascii ''moderate'', ascii ''high'', ascii ''highest''] then
            if py_le len (PInt 1) then
              Return (''Decline'', PInt 0, ''Customer is <= 1 month old on the platform.'')
            else if py_le (PInt 2) len \<and> py_le len (PInt 5) then assign_min v (6 / 10) med 150000
            else
              if py_lt s (PInt 1000) then
                Continue (v\<lparr>credit_limit := PInt 0,
                  reason := ''Customer's average sum of credit value per month does not qualify a limit.''\<rparr>)
              else if py_le (PInt 1000) s \<and> py_le s (PInt 100000) then
                assign_min v (65 / 100) med 200000
              else assign_min v (7 / 10) med 350000
          else Continue v)"

text \<open>
  Lines 148 to 154: the decision is taken on the limit before it is rounded, and the
  limit returned is \<open>round(credit_limit / 10, 0) * 10\<close>.
\<close>

definition finalize :: "locals \<Rightarrow> error + result" where
  "finalize v =
     (let v = (if py_gt (credit_limit v) (PInt 0) then v\<lparr>decision := ''Accept''\<rparr>
               else if decision v = ''Accept'' \<and> py_eq (credit_limit v) (PInt 0)
               then v\<lparr>reason := ''Customer eligible for credit. However, average sum of credit value per month does not qualify a limit.''\<rparr>
               else v)
      in case py_truediv (credit_limit v) (PInt 10) of
           Inl e \<Rightarrow> Inl e
         | Inr d \<Rightarrow>
            (case py_mul (py_round0 d) (PInt 10) of
               Inl e \<Rightarrow> Inl e
             | Inr r \<Rightarrow> Inr (decision v, r, reason v)))"

definition set_credit_limit ::
  "pyval \<Rightarrow> pyval \<Rightarrow> pyval \<Rightarrow> pyval \<Rightarrow> pyval \<Rightarrow> pyval \<Rightarrow> pyval \<Rightarrow> error + result" where
  "set_credit_limit ntxns sum_credits median btype quality listing len =
     (case validate ntxns sum_credits median btype quality listing len of
        Inl e \<Rightarrow> Inl e
      | Inr c \<Rightarrow>
         (case gates c of
            Some r \<Rightarrow> Inr r
          | None \<Rightarrow>
             (case limit_algorithm c of
                Raise e \<Rightarrow> Inl e
              | Return r \<Rightarrow> Inr r
              | Continue v \<Rightarrow> finalize v)))"

subsection \<open>Valid profiles\<close>

text \<open>
  The customer profile of the specification (section 3): three non-negative reals, a
  non-negative whole number of months, and three strings that are, up to letter case,
  values of their enumerations. A real is an \<open>int\<close> or a finite \<open>float\<close>.
\<close>

fun nonneg_real :: "pyval \<Rightarrow> bool" where
  "nonneg_real (Num (PInt n)) = (0 \<le> n)"
| "nonneg_real (Num (PFloat (Finite r))) = (0 \<le> r)"
| "nonneg_real _ = False"

fun nonneg_integer :: "pyval \<Rightarrow> bool" where
  "nonneg_integer (Num (PInt n)) = (0 \<le> n)"
| "nonneg_integer _ = False"

fun enum_value :: "(pystr \<Rightarrow> pystr) \<Rightarrow> pystr list \<Rightarrow> pyval \<Rightarrow> bool" where
  "enum_value f xs (Str s) = (f s \<in> set xs)"
| "enum_value f xs _ = False"

definition valid_profile ::
  "pyval \<Rightarrow> pyval \<Rightarrow> pyval \<Rightarrow> pyval \<Rightarrow> pyval \<Rightarrow> pyval \<Rightarrow> pyval \<Rightarrow> bool" where
  "valid_profile ntxns sum_credits median btype quality listing len =
     (nonneg_real ntxns \<and> nonneg_real sum_credits \<and> nonneg_real median \<and>
      enum_value upper [ascii ''INDIVIDUAL'', ascii ''SOLE_PROPRIETOR'', ascii ''UNREGISTERED'',
                        ascii ''LIMITED_COMPANY'', ascii ''PARTNERSHIP''] btype \<and>
      enum_value lower [ascii ''defaulter'', ascii ''lowest'', ascii ''low'', ascii ''moderate'', ascii ''high'', ascii ''highest'']
        quality \<and>
      enum_value lower [ascii ''neg'', ascii ''pos''] listing \<and>
      nonneg_integer len)"

text \<open>The conditions \<open>v <= k\<close> and \<open>v < k\<close> of the gates, on an argument as it is passed.\<close>

definition at_most :: "pyval \<Rightarrow> int \<Rightarrow> bool" where
  "at_most v k = (case as_num v of Some n \<Rightarrow> py_le n (PInt k) | None \<Rightarrow> False)"

definition below :: "pyval \<Rightarrow> int \<Rightarrow> bool" where
  "below v k = (case as_num v of Some n \<Rightarrow> py_lt n (PInt k) | None \<Rightarrow> False)"


subsection \<open>Observations\<close>



text \<open>The local variables as lines 96 to 98 initialise them.\<close>

abbreviation (input) start :: locals where
  "start \<equiv> \<lparr>decision = ''Decline'', credit_limit = PInt 0,
             reason = ''Eligibility criteria met. Limit based on transaction activity.''\<rparr>"

text \<open>A number that is a non-negative multiple of 10.\<close>

definition nonneg_multiple_of_10 :: "pynum \<Rightarrow> bool" where
  "nonneg_multiple_of_10 p =
     (case ext p of Finite r \<Rightarrow> 0 \<le> r \<and> r = of_int (10 * \<lfloor>r / 10\<rfloor>) | _ \<Rightarrow> False)"

section \<open>Properties\<close>

subsection \<open>The strings of the scenarios\<close>

lemma ascii_eq_iff [simp]: "ascii a = ascii b \<longleftrightarrow> a = b"
  by (simp add: ascii_def inj_map_eq_map [OF inj_of_char])

lemma lower_literals:
  "lower (ascii ''Neg'') = ascii ''neg''" "lower (ascii ''NEG'') = ascii ''neg''" "lower (ascii ''Pos'') = ascii ''pos''"
  "lower (ascii ''Defaulter'') = ascii ''defaulter''" "lower (ascii ''Moderate'') = ascii ''moderate''"
  "lower (ascii ''High'') = ascii ''high''" "lower (ascii ''Highest'') = ascii ''highest''"
  "lower (ascii ''Excellent'') = ascii ''excellent''"
  "lower (ascii ''INDIVIDUAL'') = ascii ''individual''" "lower (ascii ''individual'') = ascii ''individual''"
  "lower (ascii ''IND'') = ascii ''ind''" "lower (ascii ''BUS'') = ascii ''bus''"
  by (simp_all add: lower_def lower_cp_def ascii_def)

lemma upper_literals:
  "upper (ascii ''INDIVIDUAL'') = ascii ''INDIVIDUAL''" "upper (ascii ''PARTNERSHIP'') = ascii ''PARTNERSHIP''"
  "upper (ascii ''LIMITED_COMPANY'') = ascii ''LIMITED_COMPANY''"
  by (simp_all add: upper_def upper_cp_def ascii_def)

subsection \<open>The reasons the function can return\<close>

lemma assign_min_Continue:
  "assign_min v f m cap = Continue w \<Longrightarrow> decision w = decision v \<and> reason w = reason v"
  by (auto simp: assign_min_def split: sum.splits)

lemma assign_min_not_Return: "assign_min v f m cap \<noteq> Return r"
  by (auto simp: assign_min_def split: sum.splits)

lemma gates_None:
  "gates c = None \<Longrightarrow> \<not> py_lt (avg_sum_credits_per_month c) (PInt 1000)"
  by (auto simp: gates_def split: if_splits)

lemma limit_algorithm_Continue:
  assumes "limit_algorithm c = Continue v"
    and "\<not> py_lt (avg_sum_credits_per_month c) (PInt 1000)"
  shows "decision v = ''Decline'' \<and>
         reason v = ''Eligibility criteria met. Limit based on transaction activity.''"
  using assms unfolding limit_algorithm_def Let_def
  by (auto split: if_splits dest!: assign_min_Continue)

lemma finalize_Inr:
  assumes "finalize v = Inr (d, cl, r)" and "decision v = ''Decline''"
  shows "r = reason v"
  using assms unfolding finalize_def Let_def
  by (auto split: if_splits sum.splits)

lemma gates_Some:
  assumes "gates c = Some (d, cl, r)"
  shows "d = ''Decline'' \<and> cl = PInt 0 \<and>
         r \<in> set [''Customer has a negative CRB listing status.'',
                   ''Customer has < 2 average transactions per month.'',
                   ''Customer has an average sum of credit amount per month < 1k.'',
                   ''Customer categorized as a defaulter in CRB credit quality.'']"
  using assms unfolding gates_def by (simp split: if_splits)

lemma limit_algorithm_Return:
  assumes "limit_algorithm c = Return (d, cl, r)"
  shows "d = ''Decline'' \<and> cl = PInt 0 \<and>
         r \<in> set [''Customer is <= 2 months old on the platform with low credit quality.'',
                   ''Customer is <= 1 month old on the platform.'']"
  using assms unfolding limit_algorithm_def Let_def
  by (simp add: assign_min_not_Return split: if_splits)

lemma set_credit_limit_reasons:
  assumes "set_credit_limit n s m b q l len = Inr (d, cl, r)"
  shows "r \<in> set [''Customer has a negative CRB listing status.'',
                   ''Customer has < 2 average transactions per month.'',
                   ''Customer has an average sum of credit amount per month < 1k.'',
                   ''Customer categorized as a defaulter in CRB credit quality.'',
                   ''Customer is <= 2 months old on the platform with low credit quality.'',
                   ''Customer is <= 1 month old on the platform.'',
                   ''Eligibility criteria met. Limit based on transaction activity.'']"
proof (cases "validate n s m b q l len")
  case (Inl e)
  with assms show ?thesis by (simp add: set_credit_limit_def)
next
  case (Inr c)
  show ?thesis
  proof (cases "gates c")
    case (Some g)
    with Inr assms have "gates c = Some (d, cl, r)" by (simp add: set_credit_limit_def)
    from gates_Some [OF this] show ?thesis by auto
  next
    case None
    note g = None
    show ?thesis
    proof (cases "limit_algorithm c")
      case (Raise e)
      with Inr g assms show ?thesis by (simp add: set_credit_limit_def)
    next
      case (Return x)
      with Inr g assms have "limit_algorithm c = Return (d, cl, r)"
        by (simp add: set_credit_limit_def)
      from limit_algorithm_Return [OF this] show ?thesis by auto
    next
      case (Continue v)
      with Inr g assms have f: "finalize v = Inr (d, cl, r)" by (simp add: set_credit_limit_def)
      from limit_algorithm_Continue [OF Continue gates_None [OF g]]
      have "decision v = ''Decline''"
        and "reason v = ''Eligibility criteria met. Limit based on transaction activity.''"
        by simp_all
      with finalize_Inr [OF f] show ?thesis by simp
    qed
  qed
qed

subsection \<open>Validation and the gates\<close>

lemma nonneg_real_Num: "nonneg_real v \<Longrightarrow> \<exists>n. v = Num n"
  by (cases v) auto

lemma nonneg_integer_Num: "nonneg_integer v \<Longrightarrow> \<exists>n. v = Num n"
  by (cases v) auto

lemma enum_value_Str: "enum_value f xs v \<Longrightarrow> \<exists>s. v = Str s \<and> f s \<in> set xs"
  by (cases v) auto

lemma validate_ok:
  assumes "lower q \<in> set [ascii ''defaulter'', ascii ''lowest'', ascii ''low'', ascii ''moderate'', ascii ''high'', ascii ''highest'']"
    and "lower l \<in> set [ascii ''neg'', ascii ''pos'']"
    and "upper b \<in> set [ascii ''INDIVIDUAL'', ascii ''SOLE_PROPRIETOR'', ascii ''UNREGISTERED'',
                        ascii ''LIMITED_COMPANY'', ascii ''PARTNERSHIP'']"
  shows "validate (Num n) (Num s) (Num m) (Str b) (Str q) (Str l) (Num k) =
    Inr \<lparr>avg_ntxns_per_month = n, avg_sum_credits_per_month = s,
         median_avg_credits_per_month = m, businesstype = upper b,
         crb_cr_quality = q, crb_listing = l, length_on_platform = k,
         category = (if upper b \<in> set [ascii ''INDIVIDUAL'', ascii ''SOLE_PROPRIETOR'', ascii ''UNREGISTERED'']
                     then ascii ''IND'' else ascii ''BUS'')\<rparr>"
  using assms unfolding validate_def Let_def by auto

lemma valid_profile_validate:
  assumes "valid_profile ntxns sm med bt qu li len"
  obtains n s m b q l k where
    "ntxns = Num n" "sm = Num s" "med = Num m" "bt = Str b" "qu = Str q" "li = Str l" "len = Num k"
    "validate ntxns sm med bt qu li len =
      Inr \<lparr>avg_ntxns_per_month = n, avg_sum_credits_per_month = s,
         median_avg_credits_per_month = m, businesstype = upper b,
         crb_cr_quality = q, crb_listing = l, length_on_platform = k,
         category = (if upper b \<in> set [ascii ''INDIVIDUAL'', ascii ''SOLE_PROPRIETOR'', ascii ''UNREGISTERED'']
                     then ascii ''IND'' else ascii ''BUS'')\<rparr>"
proof -
  from assms obtain n s m k where 1: "ntxns = Num n" "sm = Num s" "med = Num m" "len = Num k"
    unfolding valid_profile_def
    by (meson nonneg_real_Num nonneg_integer_Num)
  from assms obtain b where b: "bt = Str b" "upper b \<in> set [ascii ''INDIVIDUAL'', ascii ''SOLE_PROPRIETOR'', ascii ''UNREGISTERED'',
                        ascii ''LIMITED_COMPANY'', ascii ''PARTNERSHIP'']"
    unfolding valid_profile_def by (meson enum_value_Str)
  from assms obtain q where q: "qu = Str q" "lower q \<in> set [ascii ''defaulter'', ascii ''lowest'', ascii ''low'', ascii ''moderate'', ascii ''high'', ascii ''highest'']"
    unfolding valid_profile_def by (meson enum_value_Str)
  from assms obtain l where l: "li = Str l" "lower l \<in> set [ascii ''neg'', ascii ''pos'']"
    unfolding valid_profile_def by (meson enum_value_Str)
  show thesis
    using that [OF 1(1,2,3) b(1) q(1) l(1) 1(4)] validate_ok [OF q(2) l(2) b(2)]
    unfolding 1 b(1) q(1) l(1) by blast
qed

text \<open>
  C2: on a valid profile the gates are taken in the order of lines 79 to 93, and the
  first one that matches decides: a negative listing (in any letter case) gives Decline,
  limit 0 and the reason of the negative listing whatever the other fields are; then
  at most one transaction a month; then credits below 1000; then the quality
  Defaulter.
\<close>

theorem gate_order:
  assumes "valid_profile ntxns sm med bt qu li len"
  shows
   "(enum_value lower [ascii ''neg''] li \<longrightarrow>
       set_credit_limit ntxns sm med bt qu li len =
         Inr (''Decline'', PInt 0, ''Customer has a negative CRB listing status.'')) \<and>
    (\<not> enum_value lower [ascii ''neg''] li \<and> at_most ntxns 1 \<longrightarrow>
       set_credit_limit ntxns sm med bt qu li len =
         Inr (''Decline'', PInt 0, ''Customer has < 2 average transactions per month.'')) \<and>
    (\<not> enum_value lower [ascii ''neg''] li \<and> \<not> at_most ntxns 1 \<and> below sm 1000 \<longrightarrow>
       set_credit_limit ntxns sm med bt qu li len =
         Inr (''Decline'', PInt 0,
              ''Customer has an average sum of credit amount per month < 1k.'')) \<and>
    (\<not> enum_value lower [ascii ''neg''] li \<and> \<not> at_most ntxns 1 \<and> \<not> below sm 1000 \<and>
     enum_value lower [ascii ''defaulter''] qu \<longrightarrow>
       set_credit_limit ntxns sm med bt qu li len =
         Inr (''Decline'', PInt 0,
              ''Customer categorized as a defaulter in CRB credit quality.''))"
proof -
  from assms obtain n s m b q l k where
    sh: "ntxns = Num n" "sm = Num s" "med = Num m" "bt = Str b" "qu = Str q" "li = Str l"
        "len = Num k"
    and v: "validate ntxns sm med bt qu li len =
      Inr \<lparr>avg_ntxns_per_month = n, avg_sum_credits_per_month = s,
         median_avg_credits_per_month = m, businesstype = upper b,
         crb_cr_quality = q, crb_listing = l, length_on_platform = k,
         category = (if upper b \<in> set [ascii ''INDIVIDUAL'', ascii ''SOLE_PROPRIETOR'', ascii ''UNREGISTERED'']
                     then ascii ''IND'' else ascii ''BUS'')\<rparr>"
    by (rule valid_profile_validate)
  show ?thesis
    unfolding set_credit_limit_def v
    by (simp add: sh gates_def at_most_def below_def)
qed

theorem gate_order_witness:
  "valid_profile (Num (PInt 1)) (Num (PInt 500)) (Num (PInt 10000)) (Str (ascii ''INDIVIDUAL''))
     (Str (ascii ''Defaulter'')) (Str (ascii ''Neg'')) (Num (PInt 10)) \<and>
   set_credit_limit (Num (PInt 1)) (Num (PInt 500)) (Num (PInt 10000)) (Str (ascii ''INDIVIDUAL''))
     (Str (ascii ''Defaulter'')) (Str (ascii ''Neg'')) (Num (PInt 10)) =
     Inr (''Decline'', PInt 0, ''Customer has a negative CRB listing status.'') \<and>
   set_credit_limit (Num (PInt 1)) (Num (PInt 500)) (Num (PInt 10000)) (Str (ascii ''INDIVIDUAL''))
     (Str (ascii ''Defaulter'')) (Str (ascii ''Pos'')) (Num (PInt 10)) =
     Inr (''Decline'', PInt 0, ''Customer has < 2 average transactions per month.'') \<and>
   set_credit_limit (Num (PInt 5)) (Num (PInt 500)) (Num (PInt 10000)) (Str (ascii ''INDIVIDUAL''))
     (Str (ascii ''Defaulter'')) (Str (ascii ''Pos'')) (Num (PInt 10)) =
     Inr (''Decline'', PInt 0, ''Customer has an average sum of credit amount per month < 1k.'') \<and>
   set_credit_limit (Num (PInt 5)) (Num (PInt 5000)) (Num (PInt 10000)) (Str (ascii ''INDIVIDUAL''))
     (Str (ascii ''Defaulter'')) (Str (ascii ''Pos'')) (Num (PInt 10)) =
     Inr (''Decline'', PInt 0, ''Customer categorized as a defaulter in CRB credit quality.'')"
proof -
  have v1: "valid_profile (Num (PInt 1)) (Num (PInt 500)) (Num (PInt 10000)) (Str (ascii ''INDIVIDUAL''))
     (Str (ascii ''Defaulter'')) (Str (ascii ''Neg'')) (Num (PInt 10))"
    by (simp add: valid_profile_def lower_literals upper_literals)
  have v2: "valid_profile (Num (PInt 1)) (Num (PInt 500)) (Num (PInt 10000)) (Str (ascii ''INDIVIDUAL''))
     (Str (ascii ''Defaulter'')) (Str (ascii ''Pos'')) (Num (PInt 10))"
    by (simp add: valid_profile_def lower_literals upper_literals)
  have v3: "valid_profile (Num (PInt 5)) (Num (PInt 500)) (Num (PInt 10000)) (Str (ascii ''INDIVIDUAL''))
     (Str (ascii ''Defaulter'')) (Str (ascii ''Pos'')) (Num (PInt 10))"
    by (simp add: valid_profile_def lower_literals upper_literals)
  have v4: "valid_profile (Num (PInt 5)) (Num (PInt 5000)) (Num (PInt 10000)) (Str (ascii ''INDIVIDUAL''))
     (Str (ascii ''Defaulter'')) (Str (ascii ''Pos'')) (Num (PInt 10))"
    by (simp add: valid_profile_def lower_literals upper_literals)
  have neg: "enum_value lower [ascii ''neg''] (Str (ascii ''Neg''))" "\<not> enum_value lower [ascii ''neg''] (Str (ascii ''Pos''))"
    by (simp_all add: lower_literals)
  have dft: "enum_value lower [ascii ''defaulter''] (Str (ascii ''Defaulter''))"
    by (simp add: lower_literals)
  have n: "at_most (Num (PInt 1)) 1" "\<not> at_most (Num (PInt 5)) 1"
    by (simp_all add: at_most_def py_le_def)
  have s: "below (Num (PInt 500)) 1000" "\<not> below (Num (PInt 5000)) 1000"
    by (simp_all add: below_def py_lt_def)
  note g1 = gate_order [OF v1, THEN conjunct1, THEN mp, OF neg(1)]
  note g2 = gate_order [OF v2, THEN conjunct2, THEN conjunct1, THEN mp, OF conjI [OF neg(2) n(1)]]
  note g3 = gate_order [OF v3, THEN conjunct2, THEN conjunct2, THEN conjunct1, THEN mp,
    OF conjI [OF neg(2) conjI [OF n(2) s(1)]]]
  note g4 = gate_order [OF v4, THEN conjunct2, THEN conjunct2, THEN conjunct2, THEN mp,
    OF conjI [OF neg(2) conjI [OF n(2) conjI [OF s(2) dft]]]]
  show ?thesis by (intro conjI v1 g1 g2 g3 g4)
qed

text \<open>
  C3: a credit quality that is a string but, lowered, none of the six recognised levels
  makes the function raise \<open>ValueError\<close>, whatever the other arguments are (a
  negative listing included); when the four numeric arguments are numbers, the error
  is the one of line 60.
\<close>

theorem invalid_quality_raises:
  assumes "lower q \<notin> set [ascii ''defaulter'', ascii ''lowest'', ascii ''low'', ascii ''moderate'', ascii ''high'', ascii ''highest'']"
  shows "(\<exists>msg. set_credit_limit ntxns sm med bt (Str q) li len = Inl (ValueError msg)) \<and>
         set_credit_limit (Num n) (Num s) (Num m) bt (Str q) li (Num k) =
           Inl (ValueError ''CRB credit quality value must be either 'Defaulter', 'Lowest', 'Low', 'Moderate', 'High' or 'Highest'.'')"
  using assms unfolding set_credit_limit_def validate_def
  by (simp split: option.splits)

theorem invalid_quality_raises_witness:
  "lower (ascii ''Excellent'') \<notin> set [ascii ''defaulter'', ascii ''lowest'', ascii ''low'', ascii ''moderate'', ascii ''high'', ascii ''highest''] \<and>
   set_credit_limit (Num (PInt 5)) (Num (PInt 500)) (Num (PInt 10000)) (Str (ascii ''INDIVIDUAL''))
     (Str (ascii ''Excellent'')) (Str (ascii ''Neg'')) (Num (PInt 10)) =
     Inl (ValueError ''CRB credit quality value must be either 'Defaulter', 'Lowest', 'Low', 'Moderate', 'High' or 'Highest'.'')"
proof -
  have h: "lower (ascii ''Excellent'') \<notin> set [ascii ''defaulter'', ascii ''lowest'', ascii ''low'', ascii ''moderate'', ascii ''high'', ascii ''highest'']"
    by (simp add: lower_literals)
  show ?thesis by (intro conjI h invalid_quality_raises [OF h, THEN conjunct2])
qed

text \<open>
  C4: the claim, that a listing which is not a string raises the validation error, fails on
  the code: line 62 calls \<open>crb_listing.lower()\<close> without the \<open>isinstance\<close> test that
  lines 56 and 66 make for the other two strings, so the listing \<open>1\<close> (an \<open>int\<close>)
  raises \<open>AttributeError\<close>, not \<open>ValueError\<close>.
\<close>

theorem listing_not_a_string_raises_attribute_error:
  "set_credit_limit (Num (PInt 5)) (Num (PInt 5000)) (Num (PInt 10000)) (Str (ascii ''INDIVIDUAL''))
     (Str (ascii ''Moderate'')) (Num (PInt 1)) (Num (PInt 10)) = Inl AttributeError"
proof -
  have "lower (ascii ''Moderate'') \<in> set [ascii ''defaulter'', ascii ''lowest'', ascii ''low'', ascii ''moderate'', ascii ''high'', ascii ''highest'']"
    by (simp add: lower_literals)
  then show ?thesis
    unfolding set_credit_limit_def validate_def by simp
qed

subsection \<open>Unreachable branches\<close>

text \<open>
  C9: the branch "sum < 1000, limit forced to 0" of lines 117 to 119 and 140 to 142 is
  unreachable: the limit algorithm runs only when no gate has matched, and then the
  test \<open>avg_sum_credits_per_month < 1000\<close> of gate 3 has been false, so the same test
  is false again in the branch. Hence the reason that only this branch sets is never
  returned, for any input.
\<close>

theorem forced_zero_branch_unreachable:
  "(gates c = None \<longrightarrow> \<not> py_lt (avg_sum_credits_per_month c) (PInt 1000)) \<and>
   set_credit_limit n s m b q l len \<noteq>
     Inr (d, cl, ''Customer's average sum of credit value per month does not qualify a limit.'')"
proof
  show "gates c = None \<longrightarrow> \<not> py_lt (avg_sum_credits_per_month c) (PInt 1000)"
    by (simp add: gates_None)
  show "set_credit_limit n s m b q l len \<noteq>
     Inr (d, cl, ''Customer's average sum of credit value per month does not qualify a limit.'')"
  proof
    assume "set_credit_limit n s m b q l len =
      Inr (d, cl, ''Customer's average sum of credit value per month does not qualify a limit.'')"
    from set_credit_limit_reasons [OF this] show False by simp
  qed
qed

theorem forced_zero_branch_unreachable_witness:
  "gates \<lparr>avg_ntxns_per_month = PInt 5, avg_sum_credits_per_month = PInt 5000,
          median_avg_credits_per_month = PInt 10000, businesstype = ascii ''INDIVIDUAL'',
          crb_cr_quality = ascii ''Moderate'', crb_listing = ascii ''Pos'', length_on_platform = PInt 10,
          category = ascii ''IND''\<rparr> = None \<and>
   \<not> py_lt (PInt 5000) (PInt 1000)"
proof -
  note l = lower_literals
  have g: "gates \<lparr>avg_ntxns_per_month = PInt 5, avg_sum_credits_per_month = PInt 5000,
          median_avg_credits_per_month = PInt 10000, businesstype = ascii ''INDIVIDUAL'',
          crb_cr_quality = ascii ''Moderate'', crb_listing = ascii ''Pos'', length_on_platform = PInt 10,
          category = ascii ''IND''\<rparr> = None"
    by (simp add: gates_def l py_le_def py_lt_def)
  from conjunct1 [OF forced_zero_branch_unreachable] g
  have "\<not> py_lt (avg_sum_credits_per_month
          \<lparr>avg_ntxns_per_month = PInt 5, avg_sum_credits_per_month = PInt 5000,
          median_avg_credits_per_month = PInt 10000, businesstype = ascii ''INDIVIDUAL'',
          crb_cr_quality = ascii ''Moderate'', crb_listing = ascii ''Pos'', length_on_platform = PInt 10,
          category = ascii ''IND''\<rparr>) (PInt 1000)"
    by (rule mp)
  with g show ?thesis by simp
qed

text \<open>
  C10: for every input, the function never returns the reason "Customer eligible for
  credit. However, average sum of credit value per month does not qualify a limit.":
  the branch of line 151 that sets it needs the decision to be Accept where the limit
  is not positive, and the decision is Decline whenever line 151 is reached.
\<close>

theorem accept_with_zero_reason_never_returned:
  "set_credit_limit n s m b q l len \<noteq>
     Inr (d, cl, ''Customer eligible for credit. However, average sum of credit value per month does not qualify a limit.'')"
proof
  assume "set_credit_limit n s m b q l len =
     Inr (d, cl, ''Customer eligible for credit. However, average sum of credit value per month does not qualify a limit.'')"
  from set_credit_limit_reasons [OF this] show False by simp
qed

subsection \<open>Binary64 rounding\<close>

text \<open>
  What the proofs below need of the rounding: it keeps the sign, it is exact on the
  integers below \<open>2 ^ 53\<close>, and it does not carry a value over such an integer.
\<close>

lemma pow2_powi: "pow2 e = 2 powi e"
  by (simp add: pow2_def power_int_def field_simps)

lemma pow2_pos: "0 < pow2 e"
  by (simp add: pow2_powi)

lemma pow2_add: "pow2 (a + b) = pow2 a * pow2 b"
  by (simp add: pow2_powi power_int_add)

lemma pow2_less_iff: "pow2 a < pow2 b \<longleftrightarrow> a < b"
proof
  assume "pow2 a < pow2 b"
  show "a < b"
  proof (rule ccontr)
    assume "\<not> a < b"
    then have "b \<le> a" by simp
    then have "pow2 b \<le> pow2 a"
      unfolding pow2_powi by (intro power_int_increasing) simp_all
    with \<open>pow2 a < pow2 b\<close> show False by simp
  qed
next
  assume "a < b"
  then show "pow2 a < pow2 b"
    unfolding pow2_powi by (intro power_int_strict_increasing) simp_all
qed


lemma pow2_nonneg_int: "0 \<le> e \<Longrightarrow> pow2 e = of_int (2 ^ nat e)"
  by (simp add: pow2_def)

lemma pow2_inverse: "pow2 (- e) = 1 / pow2 e"
  by (simp add: pow2_powi power_int_minus field_simps)

lemma round_half_even_of_int: "round_half_even (of_int k) = k"
  by (simp add: round_half_even_def)

lemma round_half_even_le: "x \<le> of_int k \<Longrightarrow> round_half_even x \<le> k"
  unfolding round_half_even_def Let_def
  by (auto simp: floor_le_iff le_floor_iff)

lemma round_half_even_ge: "of_int k \<le> x \<Longrightarrow> k \<le> round_half_even x"
  unfolding round_half_even_def Let_def
  by (auto simp: le_floor_iff) linarith+

lemma ilog2_lower:
  assumes "0 < x"
  shows "pow2 (ilog2 x) \<le> x"
proof -
  obtain a b where ab: "quotient_of x = (a, b)" by (cases "quotient_of x")
  then have b: "0 < b" using quotient_of_denom_pos by blast
  from ab have x: "x = of_int a / of_int b" by (rule quotient_of_div)
  with assms b have a: "0 < a" by (simp add: zero_less_divide_iff)
  define d where "d = bitlen a - bitlen b"
  have il: "ilog2 x = (if pow2 d \<le> x then d else d - 1)"
    by (simp add: ilog2_def ab d_def Let_def)
  show ?thesis
  proof (cases "pow2 d \<le> x")
    case True
    with il show ?thesis by simp
  next
    case False
    have la: "0 < bitlen a" using a by (simp add: bitlen_alt_def)
    from bitlen_bounds [OF a] have "(2::int) ^ nat (bitlen a - 1) \<le> a" by simp
    then have "(of_int ((2::int) ^ nat (bitlen a - 1)) :: rat) \<le> of_int a"
      by (simp only: of_int_le_iff)
    then have A: "pow2 (bitlen a - 1) \<le> of_int a"
      using la by (simp add: pow2_def)
    from bitlen_bounds [OF b] have "b < (2::int) ^ nat (bitlen b)" by simp
    then have "(of_int b :: rat) < of_int ((2::int) ^ nat (bitlen b))"
      by (simp only: of_int_less_iff)
    then have B: "of_int b < pow2 (bitlen b)"
      using bitlen_nonneg [of b] by (simp add: pow2_def)
    have "pow2 (d - 1) * of_int b \<le> pow2 (d - 1) * pow2 (bitlen b)"
      using B pow2_pos [of "d - 1"] by (simp add: mult_left_mono)
    also have "\<dots> = pow2 (bitlen a - 1)"
      unfolding pow2_add [symmetric] d_def by simp
    also have "\<dots> \<le> of_int a" by (rule A)
    finally have "pow2 (d - 1) \<le> of_int a / of_int b"
      using b by (simp add: pos_le_divide_eq)
    with il False x show ?thesis by simp
  qed
qed


lemma fl_nonzero:
  "x \<noteq> 0 \<Longrightarrow>
   fl x = of_int (round_half_even (x / pow2 (max (ilog2 \<bar>x\<bar> - 52) (- 1074)))) *
          pow2 (max (ilog2 \<bar>x\<bar> - 52) (- 1074))"
  by (simp add: fl_def Let_def)

lemma fl_zero: "fl 0 = 0"
  by (simp add: fl_def)

lemma quantum_nonpos:
  assumes "x \<noteq> 0" and "\<bar>x\<bar> < pow2 53"
  shows "max (ilog2 \<bar>x\<bar> - 52) (- 1074) \<le> 0"
proof -
  from assms(1) have "0 < \<bar>x\<bar>" by simp
  from ilog2_lower [OF this] assms(2) have "pow2 (ilog2 \<bar>x\<bar>) < pow2 53" by simp
  then have "ilog2 \<bar>x\<bar> < 53" by (simp only: pow2_less_iff)
  then show ?thesis by simp
qed

lemma div_pow2_nonpos:
  assumes "q \<le> 0"
  shows "of_int n / pow2 q = of_int (n * 2 ^ nat (- q))"
proof -
  have "pow2 q = 1 / pow2 (- q)" using pow2_inverse [of "- q"] by simp
  moreover have "pow2 (- q) = of_int (2 ^ nat (- q))"
    using assms by (intro pow2_nonneg_int) simp
  ultimately show ?thesis by simp
qed

lemma fl_nonneg:
  assumes "0 \<le> x"
  shows "0 \<le> fl x"
proof (cases "x = 0")
  case True
  then show ?thesis by (simp add: fl_zero)
next
  case False
  define q where "q = max (ilog2 \<bar>x\<bar> - 52) (- 1074)"
  have "of_int 0 \<le> x / pow2 q" using assms pow2_pos [of q] by simp
  then have "0 \<le> round_half_even (x / pow2 q)" by (rule round_half_even_ge)
  then have "0 \<le> of_int (round_half_even (x / pow2 q)) * pow2 q"
    using pow2_pos [of q] by simp
  then show ?thesis using False by (simp add: fl_nonzero q_def)
qed

lemma fl_le_of_int:
  assumes "0 \<le> x" and "x \<le> of_int N" and "N < 2 ^ 53"
  shows "fl x \<le> of_int N"
proof (cases "x = 0")
  case True
  with assms show ?thesis by (simp add: fl_zero)
next
  case False
  define q where "q = max (ilog2 \<bar>x\<bar> - 52) (- 1074)"
  from assms(3) have "(of_int N :: rat) < of_int (2 ^ 53)" by (simp only: of_int_less_iff)
  then have "(of_int N :: rat) < pow2 53" by (simp add: pow2_def)
  with assms have "\<bar>x\<bar> < pow2 53" by simp
  from quantum_nonpos [OF False this] have q: "q \<le> 0" by (simp add: q_def)
  have "x / pow2 q \<le> of_int N / pow2 q"
    using assms(2) pow2_pos [of q] by (simp add: divide_right_mono)
  also have "\<dots> = of_int (N * 2 ^ nat (- q))" using q by (rule div_pow2_nonpos)
  finally have "round_half_even (x / pow2 q) \<le> N * 2 ^ nat (- q)"
    by (rule round_half_even_le)
  then have "(of_int (round_half_even (x / pow2 q)) :: rat) \<le> of_int (N * 2 ^ nat (- q))"
    by (simp only: of_int_le_iff)
  then have "of_int (round_half_even (x / pow2 q)) * pow2 q \<le> of_int (N * 2 ^ nat (- q)) * pow2 q"
    using pow2_pos [of q] by (simp add: mult_right_mono)
  also have "of_int (N * 2 ^ nat (- q)) * pow2 q = of_int N"
    using div_pow2_nonpos [OF q, of N] pow2_pos [of q] by (simp add: field_simps)
  finally show ?thesis using False by (simp add: fl_nonzero q_def)
qed

lemma fl_of_int:
  assumes "\<bar>n\<bar> < 2 ^ 53"
  shows "fl (of_int n) = of_int n"
proof (cases "n = 0")
  case True
  then show ?thesis by (simp add: fl_zero)
next
  case False
  define x :: rat where "x = of_int n"
  define q where "q = max (ilog2 \<bar>x\<bar> - 52) (- 1074)"
  from False have x0: "x \<noteq> 0" by (simp add: x_def)
  from assms have "(of_int \<bar>n\<bar> :: rat) < of_int (2 ^ 53)" by (simp only: of_int_less_iff)
  then have "\<bar>x\<bar> < pow2 53" by (simp add: pow2_def x_def)
  from quantum_nonpos [OF x0 this] have q: "q \<le> 0" by (simp add: q_def)
  have "x / pow2 q = of_int (n * 2 ^ nat (- q))"
    unfolding x_def using q by (rule div_pow2_nonpos)
  then have "of_int (round_half_even (x / pow2 q)) * pow2 q = of_int (n * 2 ^ nat (- q)) * pow2 q"
    by (simp only: round_half_even_of_int)
  also have "\<dots> = of_int n"
    using div_pow2_nonpos [OF q, of n] pow2_pos [of q] by (simp add: field_simps)
  finally show ?thesis using x0 by (simp add: fl_nonzero q_def x_def)
qed

lemma mk_float_Finite:
  assumes "fl x = r" and "- pow2 1024 < r" and "r < pow2 1024"
  shows "mk_float x = Finite r"
  using assms by (simp add: mk_float_def Let_def)

lemma pow2_53_1024: "(2::rat) ^ 53 < pow2 1024"
proof -
  have "pow2 53 < pow2 1024" by (simp only: pow2_less_iff)
  then show ?thesis by (simp add: pow2_def)
qed

lemma mk_float_of_int:
  assumes "\<bar>n\<bar> < 2 ^ 53"
  shows "mk_float (of_int n) = Finite (of_int n)"
proof (rule mk_float_Finite [OF fl_of_int [OF assms]])
  from assms have "(of_int \<bar>n\<bar> :: rat) < of_int (2 ^ 53)" by (simp only: of_int_less_iff)
  then have "\<bar>of_int n :: rat\<bar> < 2 ^ 53" by simp
  with pow2_53_1024 have "\<bar>of_int n :: rat\<bar> < pow2 1024" by simp
  then show "- pow2 1024 < (of_int n :: rat)" and "(of_int n :: rat) < pow2 1024"
    by (simp_all add: abs_less_iff)
qed

subsection \<open>The sized limit and its rounding\<close>

lemma mk_float_bounded:
  assumes "0 \<le> x" and "x \<le> of_int N" and "N < 2 ^ 53"
  shows "mk_float x = Finite (fl x) \<and> 0 \<le> fl x \<and> fl x \<le> of_int N"
proof -
  have a: "0 \<le> fl x" using assms(1) by (rule fl_nonneg)
  have b: "fl x \<le> of_int N" using assms by (rule fl_le_of_int)
  from assms(3) have "(of_int N :: rat) < of_int (2 ^ 53)" by (simp only: of_int_less_iff)
  with pow2_53_1024 have "(of_int N :: rat) < pow2 1024" by simp
  with b have c: "fl x < pow2 1024" by simp
  from a pow2_pos [of 1024] have d: "- pow2 1024 < fl x" by simp
  from mk_float_Finite [OF refl d c] a b show ?thesis by simp
qed

text \<open>The product \<open>factor * median\<close> on a non-negative median is not negative.\<close>

lemma py_mul_lit_nonneg:
  assumes "py_mul (lit f) m = Inr p" and "ext m = Finite x" and "0 \<le> x" and "0 \<le> f"
  shows "p = PFloat PosInf \<or> (\<exists>y. p = PFloat (Finite y) \<and> 0 \<le> y)"
proof -
  have ff: "0 \<le> fl f" using assms(4) by (rule fl_nonneg)
  from assms(1) obtain y where y: "py_float m = Inr y" and p: "p = PFloat (f_mul (Finite (fl f)) y)"
    by (auto simp: lit_def split: sum.splits)
  have "\<exists>z. y = Finite z \<and> 0 \<le> z"
  proof (cases m)
    case (PInt n)
    with assms(2,3) have n: "0 \<le> n" "x = of_int n" by auto
    from y PInt obtain z where z: "mk_float (of_int n) = Finite z" "y = Finite z"
      by (auto split: pyfloat.splits)
    from z(1) have "z = fl (of_int n)" by (auto simp: mk_float_def Let_def split: if_splits)
    moreover have "0 \<le> fl (of_int n :: rat)" using n(1) by (intro fl_nonneg) simp
    ultimately show ?thesis using z(2) by simp
  next
    case (PFloat g)
    with assms(2,3) y show ?thesis by auto
  qed
  then obtain z where z: "y = Finite z" "0 \<le> z" by blast
  have "0 \<le> fl (fl f * z)" using ff z(2) by (intro fl_nonneg) simp
  then show ?thesis
    unfolding p z(1) using pow2_pos [of 1024]
    by (auto simp: mk_float_def Let_def)
qed

lemma assign_min_bounds:
  assumes "assign_min v f m cap = Continue w" and "ext m = Finite x" and "0 \<le> x"
    and "0 \<le> f" and "0 \<le> cap"
  shows "\<exists>y. ext (credit_limit w) = Finite y \<and> 0 \<le> y \<and> y \<le> of_int cap"
proof -
  from assms(1) obtain p where p: "py_mul (lit f) m = Inr p"
    and w: "w = v\<lparr>credit_limit := py_min p (PInt cap)\<rparr>"
    by (auto simp: assign_min_def split: sum.splits)
  from py_mul_lit_nonneg [OF p assms(2,3,4)]
  show ?thesis
    unfolding w using assms(5)
    by (auto simp: py_min_def py_lt_def)
qed

lemma limit_algorithm_bounds:
  assumes "limit_algorithm c = Continue v"
    and "ext (median_avg_credits_per_month c) = Finite x" and "0 \<le> x"
  shows "\<exists>y. ext (credit_limit v) = Finite y \<and> 0 \<le> y \<and> y \<le> 350000"
proof -
  have *: "\<exists>y. ext (credit_limit w) = Finite y \<and> 0 \<le> y \<and> y \<le> 350000"
    if "assign_min u f (median_avg_credits_per_month c) cap = Continue w"
      and "0 \<le> f" and "0 \<le> cap" and "cap \<le> 350000" for u f cap w
  proof -
    from assign_min_bounds [OF that(1) assms(2,3) that(2,3)]
    obtain y where y: "ext (credit_limit w) = Finite y" "0 \<le> y" "y \<le> of_int cap" by blast
    from that(4) have "(of_int cap :: rat) \<le> of_int 350000" by (simp only: of_int_le_iff)
    with y show ?thesis by simp
  qed
  from assms(1) show ?thesis
    unfolding limit_algorithm_def Let_def
    by (auto split: if_splits dest!: *)
qed

lemma mk_float_10: "mk_float 10 = Finite 10"
  using mk_float_of_int [of 10] by simp

lemma py_float_10: "py_float (PInt 10) = Inr (Finite 10)"
  by (simp add: mk_float_10)

lemma mk_float_small:
  assumes "fl x = y" and "\<bar>y\<bar> < 2 ^ 53"
  shows "mk_float x = Finite y"
proof (rule mk_float_Finite [OF assms(1)])
  from assms(2) pow2_53_1024 have "\<bar>y\<bar> < pow2 1024" by simp
  then show "- pow2 1024 < y" and "y < pow2 1024" by (simp_all add: abs_less_iff)
qed

lemma py_mul_lit_int:
  assumes "\<bar>m\<bar> < 2 ^ 53" and "fl (fl f * of_int m) = y" and "\<bar>y\<bar> < 2 ^ 53"
  shows "py_mul (lit f) (PInt m) = Inr (PFloat (Finite y))"
proof -
  have "py_float (PInt m) = Inr (Finite (of_int m))"
    using mk_float_of_int [OF assms(1)] by simp
  moreover have "mk_float (fl f * of_int m) = Finite y"
    using assms(2,3) by (rule mk_float_small)
  ultimately show ?thesis by (simp add: lit_def)
qed

lemma assign_min_int:
  assumes "\<bar>m\<bar> < 2 ^ 53" and "fl (fl f * of_int m) = y" and "\<bar>y\<bar> < 2 ^ 53"
  shows "assign_min v f (PInt m) cap =
         Continue (v\<lparr>credit_limit := py_min (PFloat (Finite y)) (PInt cap)\<rparr>)"
  by (simp add: assign_min_def py_mul_lit_int [OF assms])

lemma finalize_eval:
  assumes "ext (credit_limit v) = Finite x" and "0 \<le> x" and "x \<le> 350000"
    and "decision v = ''Decline''"
  shows "finalize v =
           Inr (if 0 < x then ''Accept'' else ''Decline'',
                PFloat (Finite (of_int (10 * round_half_even (fl (x / 10))))), reason v)"
proof -
  have x10: "0 \<le> x / 10" "x / 10 \<le> of_int 35000" using assms(2,3) by simp_all
  from mk_float_bounded [OF x10]
  have q: "mk_float (x / 10) = Finite (fl (x / 10))" "0 \<le> fl (x / 10)"
    "fl (x / 10) \<le> of_int 35000" by simp_all
  have dv: "py_truediv (credit_limit v) (PInt 10) = Inr (PFloat (Finite (fl (x / 10))))"
  proof (cases "credit_limit v")
    case (PInt n)
    with assms(1) have "x = of_int n" by simp
    with q(1) PInt show ?thesis by simp
  next
    case (PFloat g)
    with assms(1) have "g = Finite x" by simp
    with q(1) PFloat show ?thesis by (simp add: mk_float_10)
  qed
  define k where "k = round_half_even (fl (x / 10))"
  have k0: "0 \<le> k" unfolding k_def using q(2) by (intro round_half_even_ge) simp
  have k1: "k \<le> 35000" unfolding k_def using q(3) by (rule round_half_even_le)
  from k0 k1 have "\<bar>k\<bar> < 2 ^ 53" by simp
  from mk_float_of_int [OF this]
  have rd: "mk_float (of_int k) = Finite (of_int k)" .
  from k0 k1 have "\<bar>k * 10\<bar> < 2 ^ 53" by simp
  from mk_float_of_int [OF this]
  have ml: "mk_float (of_int k * 10) = Finite (of_int k * 10)"
    by simp
  have gt: "py_gt (credit_limit v) (PInt 0) \<longleftrightarrow> 0 < x"
    by (simp add: py_gt_def assms(1))
  show ?thesis
    unfolding finalize_def Let_def
    by (simp add: dv rd ml mk_float_10 gt assms(4) k_def [symmetric] mult.commute)
qed

lemma finalize_rounds:
  assumes "finalize v = Inr (d, cl, r)"
    and "ext (credit_limit v) = Finite x" and "0 \<le> x" and "x \<le> 350000"
    and "decision v = ''Decline''"
  shows "\<exists>k. cl = PFloat (Finite (of_int (10 * k))) \<and> 0 \<le> k"
proof -
  have "of_int 0 \<le> fl (x / 10)" using assms(3) by (simp add: fl_nonneg)
  then have "0 \<le> round_half_even (fl (x / 10))" by (rule round_half_even_ge)
  with assms(1) finalize_eval [OF assms(2,3,4,5)] show ?thesis by auto
qed

lemma limit_algorithm_Continue_decision:
  "limit_algorithm c = Continue v \<Longrightarrow> decision v = ''Decline''"
  unfolding limit_algorithm_def Let_def
  by (auto split: if_splits dest!: assign_min_Continue)

lemma nonneg_multiple_of_10_I: "0 \<le> k \<Longrightarrow> nonneg_multiple_of_10 (PFloat (Finite (of_int (10 * k))))"
  by (simp add: nonneg_multiple_of_10_def)

lemma nonneg_multiple_of_10_zero: "nonneg_multiple_of_10 (PInt 0)"
  by (simp add: nonneg_multiple_of_10_def)

lemma nonneg_real_ext: "nonneg_real (Num m) \<Longrightarrow> \<exists>x. ext m = Finite x \<and> 0 \<le> x"
  by (cases m; cases "case m of PFloat g \<Rightarrow> g | _ \<Rightarrow> NaN") auto

text \<open>
  C5: on a valid profile for which the function returns a result, the limit returned is
  a non-negative multiple of 10. Every early return gives the \<open>int\<close> 0; otherwise the
  sized limit lies between 0 and the largest cap, its tenth is rounded to a whole
  number \<open>k\<close>, and \<open>k * 10\<close> is exact in binary64.
\<close>

theorem limit_is_nonneg_multiple_of_10:
  assumes "valid_profile ntxns sm med bt qu li len"
    and "set_credit_limit ntxns sm med bt qu li len = Inr (d, cl, r)"
  shows "nonneg_multiple_of_10 cl"
proof -
  from assms(1) obtain n s m b q l k where
    sh: "med = Num m"
    and v: "validate ntxns sm med bt qu li len =
      Inr \<lparr>avg_ntxns_per_month = n, avg_sum_credits_per_month = s,
         median_avg_credits_per_month = m, businesstype = upper b,
         crb_cr_quality = q, crb_listing = l, length_on_platform = k,
         category = (if upper b \<in> set [ascii ''INDIVIDUAL'', ascii ''SOLE_PROPRIETOR'', ascii ''UNREGISTERED'']
                     then ascii ''IND'' else ascii ''BUS'')\<rparr>"
    by (rule valid_profile_validate)
  define c where "c = \<lparr>avg_ntxns_per_month = n, avg_sum_credits_per_month = s,
         median_avg_credits_per_month = m, businesstype = upper b,
         crb_cr_quality = q, crb_listing = l, length_on_platform = k,
         category = (if upper b \<in> set [ascii ''INDIVIDUAL'', ascii ''SOLE_PROPRIETOR'', ascii ''UNREGISTERED'']
                     then ascii ''IND'' else ascii ''BUS'')\<rparr>"
  from v have v': "validate ntxns sm med bt qu li len = Inr c" by (simp add: c_def)
  from assms(1) sh have "nonneg_real (Num m)" by (simp add: valid_profile_def)
  from nonneg_real_ext [OF this] obtain x where
    x: "ext (median_avg_credits_per_month c) = Finite x" "0 \<le> x" by (auto simp: c_def)
  show ?thesis
  proof (cases "gates c")
    case (Some g)
    with v' assms(2) have "gates c = Some (d, cl, r)" by (simp add: set_credit_limit_def)
    from gates_Some [OF this] show ?thesis by (simp add: nonneg_multiple_of_10_zero)
  next
    case None
    note g = None
    show ?thesis
    proof (cases "limit_algorithm c")
      case (Raise e)
      with v' g assms(2) show ?thesis by (simp add: set_credit_limit_def)
    next
      case (Return y)
      with v' g assms(2) have "limit_algorithm c = Return (d, cl, r)"
        by (simp add: set_credit_limit_def)
      from limit_algorithm_Return [OF this] show ?thesis
        by (simp add: nonneg_multiple_of_10_zero)
    next
      case (Continue w)
      with v' g assms(2) have f: "finalize w = Inr (d, cl, r)"
        by (simp add: set_credit_limit_def)
      from limit_algorithm_bounds [OF Continue x] obtain y where
        "ext (credit_limit w) = Finite y" "0 \<le> y" "y \<le> 350000" by blast
      from finalize_rounds [OF f this limit_algorithm_Continue_decision [OF Continue]] obtain j where
        j: "cl = PFloat (Finite (of_int (10 * j)))" "0 \<le> j" by blast
      show ?thesis unfolding j(1) using j(2) by (rule nonneg_multiple_of_10_I)
    qed
  qed
qed

subsection \<open>The branches of the limit algorithm\<close>


lemma branch_bus_6_mid:
  assumes "lower (category c) \<noteq> ascii ''ind''"
    and "lower (crb_cr_quality c) \<in> set [ascii ''moderate'', ascii ''high'', ascii ''highest'']"
    and "\<not> py_le (length_on_platform c) (PInt 5)"
    and "\<not> py_le (length_on_platform c) (PInt 1)"
    and "py_le (PInt 1000) (avg_sum_credits_per_month c)"
    and "py_le (avg_sum_credits_per_month c) (PInt 100000)"
    and "\<not> py_lt (avg_sum_credits_per_month c) (PInt 1000)"
  shows "limit_algorithm c =
         assign_min start (65 / 100) (median_avg_credits_per_month c) 200000"
  using assms unfolding limit_algorithm_def Let_def by auto

lemma branch_ind_6_mid:
  assumes "lower (category c) = ascii ''ind''"
    and "lower (crb_cr_quality c) \<in> set [ascii ''moderate'', ascii ''high'', ascii ''highest'']"
    and "\<not> py_le (length_on_platform c) (PInt 5)"
    and "\<not> py_le (length_on_platform c) (PInt 1)"
    and "py_le (PInt 1000) (avg_sum_credits_per_month c)"
    and "py_le (avg_sum_credits_per_month c) (PInt 100000)"
    and "\<not> py_lt (avg_sum_credits_per_month c) (PInt 1000)"
  shows "limit_algorithm c =
         assign_min start (4 / 10) (median_avg_credits_per_month c) 25000"
  using assms unfolding limit_algorithm_def Let_def by auto

lemma branch_ind_6_high:
  assumes "lower (category c) = ascii ''ind''"
    and "lower (crb_cr_quality c) \<in> set [ascii ''moderate'', ascii ''high'', ascii ''highest'']"
    and "\<not> py_le (length_on_platform c) (PInt 5)"
    and "\<not> py_le (length_on_platform c) (PInt 1)"
    and "\<not> py_le (avg_sum_credits_per_month c) (PInt 100000)"
    and "\<not> py_lt (avg_sum_credits_per_month c) (PInt 1000)"
  shows "limit_algorithm c =
         assign_min start (5 / 10) (median_avg_credits_per_month c) 30000"
  using assms unfolding limit_algorithm_def Let_def by auto

subsection \<open>The scenarios\<close>

lemma scenario1_value:
  "set_credit_limit (Num (PInt 5)) (Num (PInt 5000)) (Num (PInt 10000)) (Str (ascii ''INDIVIDUAL''))
     (Str (ascii ''Moderate'')) (Str (ascii ''Pos'')) (Num (PInt 10)) =
   Inr (''Accept'', PFloat (Finite 4000),
        ''Eligibility criteria met. Limit based on transaction activity.'')"
proof -
  let ?c = "\<lparr>avg_ntxns_per_month = PInt 5, avg_sum_credits_per_month = PInt 5000,
             median_avg_credits_per_month = PInt 10000, businesstype = ascii ''INDIVIDUAL'',
             crb_cr_quality = ascii ''Moderate'', crb_listing = ascii ''Pos'', length_on_platform = PInt 10,
             category = ascii ''IND''\<rparr>"
  let ?v = "start\<lparr>credit_limit := py_min (PFloat (Finite 4000)) (PInt 25000)\<rparr>"
  have v: "validate (Num (PInt 5)) (Num (PInt 5000)) (Num (PInt 10000)) (Str (ascii ''INDIVIDUAL''))
     (Str (ascii ''Moderate'')) (Str (ascii ''Pos'')) (Num (PInt 10)) = Inr ?c"
    by (simp add: validate_def lower_literals upper_literals)
  have g: "gates ?c = None"
    by (simp add: gates_def lower_literals py_le_def py_lt_def)
  have "limit_algorithm ?c = assign_min start (4 / 10) (PInt 10000) 25000"
    using branch_ind_6_mid [of ?c] by (simp add: lower_literals py_le_def py_lt_def)
  also have "\<dots> = Continue ?v"
  proof (rule assign_min_int)
    show "\<bar>10000 :: int\<bar> < 2 ^ 53" by simp
    show "fl (fl (4 / 10) * of_int 10000) = 4000" by code_simp
    show "\<bar>4000 :: rat\<bar> < 2 ^ 53" by simp
  qed
  finally have la: "limit_algorithm ?c = Continue ?v" .
  have r: "round_half_even (fl (4000 / 10)) = 400" by code_simp
  have f: "finalize ?v = Inr (''Accept'', PFloat (Finite 4000),
        ''Eligibility criteria met. Limit based on transaction activity.'')"
    using finalize_eval [of ?v 4000, unfolded r] by (simp add: py_min_def py_lt_def)
  show ?thesis
    unfolding set_credit_limit_def v sum.case g option.case la outcome.case by (rule f)
qed


lemma scenario4_value:
  "set_credit_limit (Num (PInt 3)) (Num (PInt 2000)) (Num (PInt 1000000)) (Str (ascii ''LIMITED_COMPANY''))
     (Str (ascii ''Highest'')) (Str (ascii ''Pos'')) (Num (PInt 12)) =
   Inr (''Accept'', PFloat (Finite 200000),
        ''Eligibility criteria met. Limit based on transaction activity.'')"
proof -
  let ?c = "\<lparr>avg_ntxns_per_month = PInt 3, avg_sum_credits_per_month = PInt 2000,
             median_avg_credits_per_month = PInt 1000000, businesstype = ascii ''LIMITED_COMPANY'',
             crb_cr_quality = ascii ''Highest'', crb_listing = ascii ''Pos'', length_on_platform = PInt 12,
             category = ascii ''BUS''\<rparr>"
  let ?v = "start\<lparr>credit_limit := py_min (PFloat (Finite 650000)) (PInt 200000)\<rparr>"
  have v: "validate (Num (PInt 3)) (Num (PInt 2000)) (Num (PInt 1000000)) (Str (ascii ''LIMITED_COMPANY''))
     (Str (ascii ''Highest'')) (Str (ascii ''Pos'')) (Num (PInt 12)) = Inr ?c"
    by (simp add: validate_def lower_literals upper_literals)
  have g: "gates ?c = None"
    by (simp add: gates_def lower_literals py_le_def py_lt_def)
  have "limit_algorithm ?c = assign_min start (65 / 100) (PInt 1000000) 200000"
    using branch_bus_6_mid [of ?c] by (simp add: lower_literals py_le_def py_lt_def)
  also have "\<dots> = Continue ?v"
  proof (rule assign_min_int)
    show "\<bar>1000000 :: int\<bar> < 2 ^ 53" by simp
    show "fl (fl (65 / 100) * of_int 1000000) = 650000" by code_simp
    show "\<bar>650000 :: rat\<bar> < 2 ^ 53" by simp
  qed
  finally have la: "limit_algorithm ?c = Continue ?v" .
  have r: "round_half_even (fl (200000 / 10)) = 20000" by code_simp
  have f: "finalize ?v = Inr (''Accept'', PFloat (Finite 200000),
        ''Eligibility criteria met. Limit based on transaction activity.'')"
    using finalize_eval [of ?v 200000, unfolded r] by (simp add: py_min_def py_lt_def)
  show ?thesis
    unfolding set_credit_limit_def v sum.case g option.case la outcome.case by (rule f)
qed

lemma small_median_value:
  "set_credit_limit (Num (PInt 5)) (Num (PInt 200000)) (Num (PInt 4)) (Str (ascii ''INDIVIDUAL''))
     (Str (ascii ''Moderate'')) (Str (ascii ''Pos'')) (Num (PInt 12)) =
   Inr (''Accept'', PFloat (Finite 0),
        ''Eligibility criteria met. Limit based on transaction activity.'')"
proof -
  let ?c = "\<lparr>avg_ntxns_per_month = PInt 5, avg_sum_credits_per_month = PInt 200000,
             median_avg_credits_per_month = PInt 4, businesstype = ascii ''INDIVIDUAL'',
             crb_cr_quality = ascii ''Moderate'', crb_listing = ascii ''Pos'', length_on_platform = PInt 12,
             category = ascii ''IND''\<rparr>"
  let ?v = "start\<lparr>credit_limit := py_min (PFloat (Finite 2)) (PInt 30000)\<rparr>"
  have v: "validate (Num (PInt 5)) (Num (PInt 200000)) (Num (PInt 4)) (Str (ascii ''INDIVIDUAL''))
     (Str (ascii ''Moderate'')) (Str (ascii ''Pos'')) (Num (PInt 12)) = Inr ?c"
    by (simp add: validate_def lower_literals upper_literals)
  have g: "gates ?c = None"
    by (simp add: gates_def lower_literals py_le_def py_lt_def)
  have "limit_algorithm ?c = assign_min start (5 / 10) (PInt 4) 30000"
    using branch_ind_6_high [of ?c] by (simp add: lower_literals py_le_def py_lt_def)
  also have "\<dots> = Continue ?v"
  proof (rule assign_min_int)
    show "\<bar>4 :: int\<bar> < 2 ^ 53" by simp
    show "fl (fl (5 / 10) * of_int 4) = 2" by code_simp
    show "\<bar>2 :: rat\<bar> < 2 ^ 53" by simp
  qed
  finally have la: "limit_algorithm ?c = Continue ?v" .
  have r: "round_half_even (fl (2 / 10)) = 0" by code_simp
  have f: "finalize ?v = Inr (''Accept'', PFloat (Finite 0),
        ''Eligibility criteria met. Limit based on transaction activity.'')"
    using finalize_eval [of ?v 2, unfolded r] by (simp add: py_min_def py_lt_def)
  show ?thesis
    unfolding set_credit_limit_def v sum.case g option.case la outcome.case by (rule f)
qed

theorem limit_is_nonneg_multiple_of_10_witness:
  "valid_profile (Num (PInt 5)) (Num (PInt 5000)) (Num (PInt 10000)) (Str (ascii ''INDIVIDUAL''))
     (Str (ascii ''Moderate'')) (Str (ascii ''Pos'')) (Num (PInt 10)) \<and>
   set_credit_limit (Num (PInt 5)) (Num (PInt 5000)) (Num (PInt 10000)) (Str (ascii ''INDIVIDUAL''))
     (Str (ascii ''Moderate'')) (Str (ascii ''Pos'')) (Num (PInt 10)) =
   Inr (''Accept'', PFloat (Finite 4000),
        ''Eligibility criteria met. Limit based on transaction activity.'') \<and>
   nonneg_multiple_of_10 (PFloat (Finite 4000))"
proof -
  have v: "valid_profile (Num (PInt 5)) (Num (PInt 5000)) (Num (PInt 10000)) (Str (ascii ''INDIVIDUAL''))
     (Str (ascii ''Moderate'')) (Str (ascii ''Pos'')) (Num (PInt 10))"
    by (simp add: valid_profile_def lower_literals upper_literals)
  show ?thesis
    by (intro conjI v scenario1_value limit_is_nonneg_multiple_of_10 [OF v scenario1_value])
qed

text \<open>
  C1: the claim, that the decision is Accept exactly when the returned limit is
  positive, fails on the code: line 149 tests the limit before line 154 rounds it, so a
  sized limit below 5 is accepted and then returned as 0. With a median of 4, a sum of
  200000 and 12 months (individual, Moderate, Pos) the sized limit is \<open>0.5 * 4 = 2.0\<close>,
  the decision Accept, and the limit returned \<open>round(0.2, 0) * 10 = 0.0\<close>.
\<close>

theorem accept_with_zero_limit:
  "set_credit_limit (Num (PInt 5)) (Num (PInt 200000)) (Num (PInt 4)) (Str (ascii ''INDIVIDUAL''))
     (Str (ascii ''Moderate'')) (Str (ascii ''Pos'')) (Num (PInt 12)) =
   Inr (''Accept'', PFloat (Finite 0),
        ''Eligibility criteria met. Limit based on transaction activity.'') \<and>
   \<not> py_gt (PFloat (Finite 0)) (PInt 0)"
  by (rule conjI [OF small_median_value]) (simp add: py_gt_def)

text \<open>
  C6, as stated (Scenario 4 returns Accept with limit 350000), fails: the scenario's
  \<open>avg_sum_credits_per_month\<close> is 2000, which lies in the band from 1000 to 100000 of
  line 143, not in the band above 100000 of line 145.
\<close>

theorem scenario4_counterexample:
  "set_credit_limit (Num (PInt 3)) (Num (PInt 2000)) (Num (PInt 1000000))
     (Str (ascii ''LIMITED_COMPANY'')) (Str (ascii ''Highest'')) (Str (ascii ''Pos'')) (Num (PInt 12)) \<noteq>
   Inr (''Accept'', PFloat (Finite 350000),
        ''Eligibility criteria met. Limit based on transaction activity.'') \<and>
   set_credit_limit (Num (PInt 3)) (Num (PInt 2000)) (Num (PInt 1000000))
     (Str (ascii ''LIMITED_COMPANY'')) (Str (ascii ''Highest'')) (Str (ascii ''Pos'')) (Num (PInt 12)) \<noteq>
   Inr (''Accept'', PInt 350000,
        ''Eligibility criteria met. Limit based on transaction activity.'')"
  unfolding scenario4_value by simp

text \<open>
  C6, amended: on the input of Scenario 4 the function returns Accept with limit 200000:
  the factor is 0.65 and the cap 200000, and \<open>0.65 * 1000000 = 650000\<close> is capped.
\<close>

theorem scenario4_limit_200000:
  "set_credit_limit (Num (PInt 3)) (Num (PInt 2000)) (Num (PInt 1000000))
     (Str (ascii ''LIMITED_COMPANY'')) (Str (ascii ''Highest'')) (Str (ascii ''Pos'')) (Num (PInt 12)) =
   Inr (''Accept'', PFloat (Finite 200000),
        ''Eligibility criteria met. Limit based on transaction activity.'')"
  by (rule scenario4_value)

subsection \<open>The tier of a business with 2 to 5 months\<close>









subsection \<open>Letter case\<close>

lemma upper_lower_cp:
  assumes "c < 128"
  shows "upper (lower_cp c) = upper_cp c"
proof (cases "65 \<le> c \<and> c \<le> 90")
  case True
  then show ?thesis by (simp add: upper_def lower_cp_def upper_cp_def)
next
  case False
  with assms have "lower_cp c = [c]" by (auto simp: lower_cp_def)
  then show ?thesis by (simp add: upper_def)
qed

lemma upper_append: "upper (s @ t) = upper s @ upper t"
  by (simp add: upper_def)

lemma upper_lower:
  assumes "is_ascii s"
  shows "upper (lower s) = upper s"
  using assms
proof (induction s)
  case Nil
  then show ?case by (simp add: upper_def lower_def)
next
  case (Cons c s)
  then have c: "c < 128" and s: "is_ascii s" by (simp_all add: is_ascii_def)
  have "upper (lower (c # s)) = upper (lower_cp c) @ upper (lower s)"
    by (simp add: lower_def upper_append [symmetric])
  also have "\<dots> = upper_cp c @ upper s"
    using upper_lower_cp [OF c] Cons.IH [OF s] by simp
  also have "\<dots> = upper (c # s)" by (simp add: upper_def)
  finally show ?case .
qed

lemma gates_case:
  "lower q = lower q' \<Longrightarrow> lower l = lower l' \<Longrightarrow>
   gates (c\<lparr>crb_cr_quality := q', crb_listing := l'\<rparr>) =
   gates (c\<lparr>crb_cr_quality := q, crb_listing := l\<rparr>)"
  by (simp add: gates_def)

lemma limit_algorithm_case:
  "lower q = lower q' \<Longrightarrow>
   limit_algorithm (c\<lparr>crb_cr_quality := q', crb_listing := l'\<rparr>) =
   limit_algorithm (c\<lparr>crb_cr_quality := q, crb_listing := l\<rparr>)"
  by (simp add: limit_algorithm_def)

lemma validate_case:
  assumes "upper b = upper b'" and "lower q = lower q'" and "lower l = lower l'"
  shows "validate ntxns sm med (Str b') (Str q') (Str l') len =
         map_sum id (\<lambda>c. c\<lparr>crb_cr_quality := q', crb_listing := l'\<rparr>)
           (validate ntxns sm med (Str b) (Str q) (Str l) len)"
  unfolding validate_def Let_def
  by (simp add: assms [symmetric] split: option.splits)

lemma validate_fields:
  "validate ntxns sm med (Str b) (Str q) (Str l) len = Inr c \<Longrightarrow>
   c\<lparr>crb_cr_quality := q, crb_listing := l\<rparr> = c"
  unfolding validate_def Let_def
  by (auto split: option.splits if_splits)

text \<open>
  The result depends on the business type through \<open>upper\<close> only, and on the two CRB
  strings through \<open>lower\<close> only.
\<close>

lemma same_case_forms_same_result:
  assumes "upper b = upper b'" and "lower q = lower q'" and "lower l = lower l'"
  shows "set_credit_limit ntxns sm med (Str b) (Str q) (Str l) len =
         set_credit_limit ntxns sm med (Str b') (Str q') (Str l') len"
proof -
  note v = validate_case [OF assms, of ntxns sm med len]
  show ?thesis
  proof (cases "validate ntxns sm med (Str b) (Str q) (Str l) len")
    case (Inl e)
    with v show ?thesis by (simp add: set_credit_limit_def)
  next
    case (Inr c)
    from validate_fields [OF Inr] have c: "c\<lparr>crb_cr_quality := q, crb_listing := l\<rparr> = c" .
    from v Inr have v': "validate ntxns sm med (Str b') (Str q') (Str l') len =
      Inr (c\<lparr>crb_cr_quality := q', crb_listing := l'\<rparr>)" by simp
    from gates_case [OF assms(2,3), where c = c] c
    have g: "gates (c\<lparr>crb_cr_quality := q', crb_listing := l'\<rparr>) = gates c" by simp
    from limit_algorithm_case [OF assms(2), where c = c and l = l and l' = l'] c
    have la: "limit_algorithm (c\<lparr>crb_cr_quality := q', crb_listing := l'\<rparr>) =
      limit_algorithm c" by simp
    show ?thesis
      unfolding set_credit_limit_def Inr v' sum.case g la by (rule refl)
  qed
qed

text \<open>
  C8, as stated (for every profile, changing only the letter case of the string fields
  leaves the result unchanged), fails outside ASCII: the listing \<open>po\<close> followed by the
  long s (U+017F) has the upper case \<open>POS\<close>, yet line 62 lowers it to itself and line 63
  raises, while \<open>POS\<close> is accepted.
\<close>

theorem letter_case_counterexample:
  "upper [112, 111, 383] = ascii ''POS'' \<and>
   set_credit_limit (Num (PInt 5)) (Num (PInt 5000)) (Num (PInt 10000))
     (Str (ascii ''INDIVIDUAL'')) (Str (ascii ''Moderate'')) (Str [112, 111, 383])
     (Num (PInt 10)) =
   Inl (ValueError ''CRB listing can only take the values 'Neg' or 'Pos'.'') \<and>
   set_credit_limit (Num (PInt 5)) (Num (PInt 5000)) (Num (PInt 10000))
     (Str (ascii ''INDIVIDUAL'')) (Str (ascii ''Moderate'')) (Str (ascii ''POS''))
     (Num (PInt 10)) =
   Inr (''Accept'', PFloat (Finite 4000),
        ''Eligibility criteria met. Limit based on transaction activity.'')"
proof (intro conjI)
  show "upper [112, 111, 383] = ascii ''POS''"
    by (simp add: upper_def upper_cp_def ascii_def)
  have l: "lower [112, 111, 383] = [112, 111, 383]"
    by (simp add: lower_def lower_cp_def)
  have n: "[112, 111, 383] \<noteq> ascii ''neg''" "[112, 111, 383] \<noteq> ascii ''pos''"
    by (simp_all add: ascii_def)
  show "set_credit_limit (Num (PInt 5)) (Num (PInt 5000)) (Num (PInt 10000))
     (Str (ascii ''INDIVIDUAL'')) (Str (ascii ''Moderate'')) (Str [112, 111, 383])
     (Num (PInt 10)) =
   Inl (ValueError ''CRB listing can only take the values 'Neg' or 'Pos'.'')"
    by (simp add: set_credit_limit_def validate_def lower_literals l n)
  have "lower (ascii ''POS'') = lower (ascii ''Pos'')"
    by (simp add: lower_def lower_cp_def ascii_def)
  from same_case_forms_same_result [OF refl refl this]
  show "set_credit_limit (Num (PInt 5)) (Num (PInt 5000)) (Num (PInt 10000))
     (Str (ascii ''INDIVIDUAL'')) (Str (ascii ''Moderate'')) (Str (ascii ''POS''))
     (Num (PInt 10)) =
   Inr (''Accept'', PFloat (Finite 4000),
        ''Eligibility criteria met. Limit based on transaction activity.'')"
    by (simp only: scenario1_value)
qed

text \<open>
  C8, amended: on ASCII strings, changing only the letter case of the three string
  arguments (the lowered forms of the old and the new string agree) leaves the result
  unchanged, error or not; so \<open>NEG\<close> gives what \<open>Neg\<close> gives and \<open>individual\<close> what
  \<open>INDIVIDUAL\<close> gives. Only the business types need to be ASCII: for the two CRB
  strings it is enough that the lowered forms agree.
\<close>

theorem letter_case_irrelevant:
  assumes "is_ascii b" and "is_ascii b'"
    and "lower b = lower b'" and "lower q = lower q'" and "lower l = lower l'"
  shows "set_credit_limit ntxns sm med (Str b) (Str q) (Str l) len =
         set_credit_limit ntxns sm med (Str b') (Str q') (Str l') len"
proof -
  have "upper b = upper (lower b)" using assms(1) by (simp add: upper_lower)
  also have "\<dots> = upper (lower b')" by (simp only: assms(3))
  also have "\<dots> = upper b'" using assms(2) by (simp add: upper_lower)
  finally show ?thesis using assms(4,5) by (rule same_case_forms_same_result)
qed

theorem letter_case_irrelevant_witness:
  "is_ascii (ascii ''individual'') \<and> is_ascii (ascii ''INDIVIDUAL'') \<and>
   lower (ascii ''individual'') = lower (ascii ''INDIVIDUAL'') \<and>
   lower (ascii ''NEG'') = lower (ascii ''Neg'') \<and>
   set_credit_limit (Num (PInt 5)) (Num (PInt 5000)) (Num (PInt 10000))
     (Str (ascii ''individual'')) (Str (ascii ''Moderate'')) (Str (ascii ''NEG''))
     (Num (PInt 10)) =
   set_credit_limit (Num (PInt 5)) (Num (PInt 5000)) (Num (PInt 10000))
     (Str (ascii ''INDIVIDUAL'')) (Str (ascii ''Moderate'')) (Str (ascii ''Neg''))
     (Num (PInt 10))"
proof -
  have a: "is_ascii (ascii ''individual'')" "is_ascii (ascii ''INDIVIDUAL'')"
    by (simp_all add: is_ascii_def ascii_def)
  have b: "lower (ascii ''individual'') = lower (ascii ''INDIVIDUAL'')"
    by (simp add: lower_literals)
  have l: "lower (ascii ''NEG'') = lower (ascii ''Neg'')" by (simp add: lower_literals)
  show ?thesis by (intro conjI a b l letter_case_irrelevant [OF a b refl l])
qed

end
